theory Spec2Isabelle
  imports Main
begin

section \<open>The User entity and HTTP responses\<close>

text \<open>
  \<^verbatim>\<open>type User struct { ID uint; Name string; Birthday string }\<close> (main.go, lines 19-23).
  No arithmetic is ever performed on \<open>ID\<close>, so it is a natural number here; a Go
  \<^verbatim>\<open>uint\<close> is below \<open>2 ^ 64\<close>, and the one place where the size of an identifier
  matters, the insert, checks it.
\<close>

record User =
  ID :: nat
  Name :: string
  Birthday :: string

text \<open>
  The values the handlers hand to \<^verbatim>\<open>c.JSON\<close>: a User, a slice of Users (a nil slice
  is encoded as \<^verbatim>\<open>null\<close>, any other slice as an array), or a string map such as
  \<^verbatim>\<open>{"error": "User not found"}\<close>.
\<close>

datatype json = JNull | JUser User | JArray "User list" | JMap "(string \<times> string) list"

record response =
  status :: nat
  body :: json

definition StatusOK :: nat where "StatusOK = 200"

definition StatusCreated :: nat where "StatusCreated = 201"

definition StatusBadRequest :: nat where "StatusBadRequest = 400"

definition StatusNotFound :: nat where "StatusNotFound = 404"

definition StatusInternalServerError :: nat where "StatusInternalServerError = 500"

definition JSON :: "nat \<Rightarrow> json \<Rightarrow> response" where
  "JSON code v = \<lparr>status = code, body = v\<rparr>"

text \<open>A Go slice of Users: \<open>None\<close> is the nil slice.\<close>

definition json_slice :: "User list option \<Rightarrow> json" where
  "json_slice s = (case s of None \<Rightarrow> JNull | Some us \<Rightarrow> JArray us)"

section \<open>strconv.Atoi\<close>

text \<open>
  The path parameter is parsed by \<^verbatim>\<open>strconv.Atoi\<close>, that is \<^verbatim>\<open>ParseInt(s, 10, 0)\<close>
  with a 64-bit \<^verbatim>\<open>int\<close>: an optional sign, then at least one decimal digit and
  nothing else; the value has to fit the type. The digits are scanned from the left,
  and the scan stops at the first byte that is no digit or at the first overflow.
\<close>

datatype num_error = ErrSyntax | ErrRange

definition is_digit :: "char \<Rightarrow> bool" where
  "is_digit c = (48 \<le> (of_char c :: nat) \<and> (of_char c :: nat) \<le> 57)"

definition digit_val :: "char \<Rightarrow> nat" where
  "digit_val c = of_char c - 48"

definition maxUint64 :: nat where
  "maxUint64 = 2 ^ 64 - 1"

fun ParseUint_loop :: "string \<Rightarrow> nat \<Rightarrow> num_error + nat" where
  "ParseUint_loop [] n = Inr n"
| "ParseUint_loop (c # cs) n =
     (if \<not> is_digit c then Inl ErrSyntax
      else if maxUint64 < n * 10 + digit_val c then Inl ErrRange
      else ParseUint_loop cs (n * 10 + digit_val c))"

definition ParseUint :: "string \<Rightarrow> num_error + nat" where
  "ParseUint s = (if s = [] then Inl ErrSyntax else ParseUint_loop s 0)"

definition ParseInt :: "string \<Rightarrow> num_error + int" where
  "ParseInt s =
     (case s of
        [] \<Rightarrow> Inl ErrSyntax
      | c # cs \<Rightarrow>
          let neg = (c = CHR ''-'');
              s' = (if c = CHR ''+'' \<or> c = CHR ''-'' then cs else s)
          in (case ParseUint s' of
                Inl e \<Rightarrow> Inl e
              | Inr un \<Rightarrow>
                  if \<not> neg \<and> 2 ^ 63 \<le> un then Inl ErrRange
                  else if neg \<and> 2 ^ 63 < un then Inl ErrRange
                  else Inr (if neg then - int un else int un)))"

definition Atoi :: "string \<Rightarrow> num_error + int" where
  "Atoi s = ParseInt s"

section \<open>The store\<close>

text \<open>
  The handlers reach the database through the global handle \<^verbatim>\<open>db\<close> only, with the five
  calls \<^verbatim>\<open>Find\<close>, \<^verbatim>\<open>First\<close>, \<^verbatim>\<open>Create\<close>, \<^verbatim>\<open>Save\<close> and \<^verbatim>\<open>Delete\<close>. The persisted state
  is the list of rows of the users table, in the order of the primary key. What the
  handlers cannot control is an environment: for each kind of call, whether the
  database fails on it (connection lost, disk full, ...), and the identifier the
  database would hand out to a row inserted without one.
\<close>

datatype db_op = OpFind | OpFirst | OpCreate | OpSave | OpDelete

record env =
  fault :: "db_op \<Rightarrow> bool"
  fresh :: nat

datatype db_error = ErrRecordNotFound | ErrDuplicatedKey | ErrKeyRange | ErrFault

definition no_fault :: "db_op \<Rightarrow> bool" where
  "no_fault op = False"

definition only_fault :: "db_op \<Rightarrow> db_op \<Rightarrow> bool" where
  "only_fault op op' = (op' = op)"

text \<open>
  \<^verbatim>\<open>db.Find(&users)\<close>: every row. The toolkit stores a freshly made slice in the
  destination also when the table is empty, so the destination is never nil after a
  successful call.
\<close>

definition dbFind :: "env \<Rightarrow> User list \<Rightarrow> User list option \<Rightarrow> db_error + User list option" where
  "dbFind e rows dest = (if fault e OpFind then Inl ErrFault else Inr (Some rows))"

text \<open>
  \<^verbatim>\<open>db.First(&user, id)\<close>: the row whose primary key equals the integer \<open>id\<close>, or the
  error \<^verbatim>\<open>ErrRecordNotFound\<close>. The key column holds unsigned values, so a negative
  \<open>id\<close> matches no row.
\<close>

definition dbFirst :: "env \<Rightarrow> User list \<Rightarrow> int \<Rightarrow> db_error + User" where
  "dbFirst e rows i =
     (if fault e OpFirst then Inl ErrFault
      else case find (\<lambda>u. int (ID u) = i) rows of
             None \<Rightarrow> Inl ErrRecordNotFound
           | Some u \<Rightarrow> Inr u)"

text \<open>
  \<^verbatim>\<open>db.Create(user)\<close>: a record whose \<open>ID\<close> is zero has no identifier yet and gets the
  one the database generates; a record with a non-zero \<open>ID\<close> is inserted under that
  \<open>ID\<close>. The key column is a signed 64-bit integer: an identifier of \<open>2 ^ 63\<close> or more
  (a Go \<^verbatim>\<open>uint\<close> with the top bit set) does not fit it, and the insert fails. The primary
  key constraint rejects an identifier that is already taken. The record is returned
  with its identifier filled in. The table is listed in the order of the primary key,
  so the new row takes its place by its identifier.
\<close>

definition dbCreate :: "env \<Rightarrow> User list \<Rightarrow> User \<Rightarrow> db_error + User \<times> User list" where
  "dbCreate e rows u =
     (if fault e OpCreate then Inl ErrFault
      else let u' = (if ID u = 0 then u\<lparr>ID := fresh e\<rparr> else u)
           in if 2 ^ 63 \<le> ID u' then Inl ErrKeyRange
              else if ID u' \<in> set (map ID rows) then Inl ErrDuplicatedKey
              else Inr (u', insort_key ID u' rows))"

text \<open>
  \<^verbatim>\<open>db.Save(&user)\<close>: overwrites every column of the row with the record's primary key
  (and inserts the record when no row has that key).
\<close>

definition dbSave :: "env \<Rightarrow> User list \<Rightarrow> User \<Rightarrow> db_error + User \<times> User list" where
  "dbSave e rows u =
     (if fault e OpSave then Inl ErrFault
      else if ID u \<in> set (map ID rows)
           then Inr (u, map (\<lambda>r. if ID r = ID u then u else r) rows)
           else Inr (u, insort_key ID u rows))"

text \<open>\<^verbatim>\<open>db.Delete(&user)\<close>: removes the row with the record's primary key.\<close>

definition dbDelete :: "env \<Rightarrow> User list \<Rightarrow> User \<Rightarrow> db_error + User list" where
  "dbDelete e rows u =
     (if fault e OpDelete then Inl ErrFault
      else Inr (filter (\<lambda>r. ID r \<noteq> ID u) rows))"

section \<open>The handlers\<close>

text \<open>
  Each handler takes the environment, the rows before the request and the request's
  inputs, and returns the response with the rows after the request. The path
  parameter is the string \<^verbatim>\<open>c.Param("id")\<close>. The request body enters through
  \<^verbatim>\<open>c.Bind\<close> on a zero User: \<open>None\<close> when \<^verbatim>\<open>Bind\<close> returns an error, otherwise the
  User it filled (a field the body does not mention stays zero or empty).
\<close>

definition getUsers :: "env \<Rightarrow> User list \<Rightarrow> response \<times> User list" where
  "getUsers e rows =
     (let users = None
      in case dbFind e rows users of
           Inl err \<Rightarrow>
             (JSON StatusInternalServerError (JMap [(''error'', ''Failed to fetch users'')]), rows)
         | Inr users' \<Rightarrow> (JSON StatusOK (json_slice users'), rows))"

definition getUser :: "env \<Rightarrow> User list \<Rightarrow> string \<Rightarrow> response \<times> User list" where
  "getUser e rows param =
     (case Atoi param of
        Inl err \<Rightarrow> (JSON StatusBadRequest (JMap [(''error'', ''Invalid user ID'')]), rows)
      | Inr i \<Rightarrow>
          (case dbFirst e rows i of
             Inl err \<Rightarrow> (JSON StatusNotFound (JMap [(''error'', ''User not found'')]), rows)
           | Inr user \<Rightarrow> (JSON StatusOK (JUser user), rows)))"

definition createUser :: "env \<Rightarrow> User list \<Rightarrow> User option \<Rightarrow> response \<times> User list" where
  "createUser e rows bind =
     (case bind of
        None \<Rightarrow> (JSON StatusBadRequest (JMap [(''error'', ''Invalid request'')]), rows)
      | Some user \<Rightarrow>
          if Name user = [] \<or> Birthday user = []
          then (JSON StatusBadRequest (JMap [(''error'', ''Name and Birthday are required'')]), rows)
          else (case dbCreate e rows user of
                  Inl err \<Rightarrow>
                    (JSON StatusInternalServerError (JMap [(''error'', ''Failed to create user'')]), rows)
                | Inr (user', rows') \<Rightarrow> (JSON StatusCreated (JUser user'), rows')))"

definition updateUser :: "env \<Rightarrow> User list \<Rightarrow> string \<Rightarrow> User option \<Rightarrow> response \<times> User list" where
  "updateUser e rows param bind =
     (case Atoi param of
        Inl err \<Rightarrow> (JSON StatusBadRequest (JMap [(''error'', ''Invalid user ID'')]), rows)
      | Inr i \<Rightarrow>
          (case dbFirst e rows i of
             Inl err \<Rightarrow> (JSON StatusNotFound (JMap [(''error'', ''User not found'')]), rows)
           | Inr user \<Rightarrow>
               (case bind of
                  None \<Rightarrow> (JSON StatusBadRequest (JMap [(''error'', ''Invalid request'')]), rows)
                | Some updatedUser \<Rightarrow>
                    let user1 = (if Name updatedUser \<noteq> []
                                 then user\<lparr>Name := Name updatedUser\<rparr> else user);
                        user2 = (if Birthday updatedUser \<noteq> []
                                 then user1\<lparr>Birthday := Birthday updatedUser\<rparr> else user1)
                    in (case dbSave e rows user2 of
                          Inl err \<Rightarrow>
                            (JSON StatusInternalServerError
                               (JMap [(''error'', ''Failed to update user'')]), rows)
                        | Inr (user', rows') \<Rightarrow> (JSON StatusOK (JUser user'), rows')))))"

definition deleteUser :: "env \<Rightarrow> User list \<Rightarrow> string \<Rightarrow> response \<times> User list" where
  "deleteUser e rows param =
     (case Atoi param of
        Inl err \<Rightarrow> (JSON StatusBadRequest (JMap [(''error'', ''Invalid user ID'')]), rows)
      | Inr i \<Rightarrow>
          (case dbFirst e rows i of
             Inl err \<Rightarrow> (JSON StatusNotFound (JMap [(''error'', ''User not found'')]), rows)
           | Inr user \<Rightarrow>
               (case dbDelete e rows user of
                  Inl err \<Rightarrow>
                    (JSON StatusInternalServerError
                       (JMap [(''error'', ''Failed to delete user'')]), rows)
                | Inr rows' \<Rightarrow>
                    (JSON StatusOK (JMap [(''message'', ''User deleted successfully'')]), rows'))))"

section \<open>The routes\<close>

text \<open>
  The route table of \<^verbatim>\<open>main\<close> (main.go, lines 154-158), and a server that handles a
  sequence of requests, each under the environment it meets.
\<close>

datatype request =
    ReqList
  | ReqGet string
  | ReqCreate "User option"
  | ReqUpdate string "User option"
  | ReqDelete string

fun route :: "env \<Rightarrow> User list \<Rightarrow> request \<Rightarrow> response \<times> User list" where
  "route e rows ReqList = getUsers e rows"
| "route e rows (ReqGet param) = getUser e rows param"
| "route e rows (ReqCreate bind) = createUser e rows bind"
| "route e rows (ReqUpdate param bind) = updateUser e rows param bind"
| "route e rows (ReqDelete param) = deleteUser e rows param"

fun serve :: "User list \<Rightarrow> (env \<times> request) list \<Rightarrow> User list" where
  "serve rows [] = rows"
| "serve rows ((e, r) # rs) = serve (snd (route e rows r)) rs"

section \<open>Auxiliary notions for the properties\<close>

text \<open>
  The record that \<^verbatim>\<open>updateUser\<close> saves (main.go, lines 112-117), in closed form: the
  loaded record \<open>u\<close> with each non-empty field of the decoded body \<open>b\<close> written over it.
\<close>

definition overlay :: "User \<Rightarrow> User \<Rightarrow> User" where
  "overlay u b =
     \<lparr>ID = ID u,
      Name = (if Name b = [] then Name u else Name b),
      Birthday = (if Birthday b = [] then Birthday u else Birthday b)\<rparr>"

text \<open>
  The invariant of the users table: no two rows share an identifier, and no row has an
  empty name or an empty birthday.
\<close>

definition store_inv :: "User list \<Rightarrow> bool" where
  "store_inv rows =
     (distinct (map ID rows) \<and> list_all (\<lambda>u. Name u \<noteq> [] \<and> Birthday u \<noteq> []) rows)"

text \<open>
  The strings \<^verbatim>\<open>strconv.Atoi\<close> accepts, said without the scanning loop: an optional
  sign followed by one or more decimal digits; and the integer such a string denotes.
\<close>

definition signed_decimal :: "string \<Rightarrow> bool" where
  "signed_decimal s =
     (case s of
        [] \<Rightarrow> False
      | c # cs \<Rightarrow>
          if c = CHR ''+'' \<or> c = CHR ''-'' then cs \<noteq> [] \<and> list_all is_digit cs
          else list_all is_digit s)"

definition digits_value :: "string \<Rightarrow> nat" where
  "digits_value ds = foldl (\<lambda>n c. n * 10 + digit_val c) 0 ds"

definition decimal_value :: "string \<Rightarrow> int" where
  "decimal_value s =
     (case s of
        [] \<Rightarrow> 0
      | c # cs \<Rightarrow>
          if c = CHR ''-'' then - int (digits_value cs)
          else if c = CHR ''+'' then int (digits_value cs)
          else int (digits_value s))"

text \<open>Sample rows and sample environments, used to instantiate the theorems.\<close>

definition ada :: User where
  "ada = \<lparr>ID = 1, Name = ''Ada'', Birthday = ''1815-12-10''\<rparr>"

definition grace :: User where
  "grace = \<lparr>ID = 2, Name = ''Grace'', Birthday = ''1906-12-09''\<rparr>"

definition calm :: env where
  "calm = \<lparr>fault = no_fault, fresh = 2\<rparr>"

definition broken :: "db_op \<Rightarrow> env" where
  "broken op = \<lparr>fault = only_fault op, fresh = 2\<rparr>"

section \<open>Basic facts\<close>

lemmas status_defs = StatusOK_def StatusCreated_def StatusBadRequest_def StatusNotFound_def
  StatusInternalServerError_def JSON_def

lemmas atoi_defs = Atoi_def ParseInt_def ParseUint_def is_digit_def digit_val_def maxUint64_def

lemmas sample_defs = ada_def calm_def broken_def no_fault_def only_fault_def

lemma atoi_1: "Atoi ''1'' = Inr 1"
  by (simp add: atoi_defs)

lemma atoi_3: "Atoi ''3'' = Inr 3"
  by (simp add: atoi_defs)

lemma atoi_minus_5: "Atoi ''-5'' = Inr (- 5)"
  by (simp add: atoi_defs)

lemma sample_ids: "ID ada = 1" "ID grace = 2"
  by (simp_all add: ada_def grace_def)

lemma sample_fields:
  "Name ada \<noteq> []" "Birthday ada \<noteq> []" "Name grace \<noteq> []" "Birthday grace \<noteq> []"
  by (simp_all add: ada_def grace_def)

lemma broken_fault: "fault (broken op) op' \<longleftrightarrow> op' = op"
  by (simp add: broken_def only_fault_def)

lemma calm_fault: "\<not> fault calm op"
  by (simp add: calm_def no_fault_def)

lemma find_id_mem:
  "find (\<lambda>r. int (ID r) = i) rows = Some u \<Longrightarrow> u \<in> set rows \<and> int (ID u) = i"
  by (induction rows) (auto split: if_splits)

lemma find_id_replace:
  "find (\<lambda>r. int (ID r) = i) rows = Some u \<Longrightarrow> ID m = ID u \<Longrightarrow>
   find (\<lambda>r. int (ID r) = i) (map (\<lambda>r. if ID r = ID u then m else r) rows) = Some m"
  by (induction rows) (auto split: if_splits)

lemma find_id_removed:
  "int (ID u) = i \<Longrightarrow>
   find (\<lambda>r. int (ID r) = i) (filter (\<lambda>r. ID r \<noteq> ID u) rows) = None"
  by (induction rows) auto

lemma find_negative: "i < 0 \<Longrightarrow> find (\<lambda>r. int (ID r) = i) rows = None"
  by (induction rows) auto

lemma merge_overlay:
  "(if Birthday b \<noteq> []
    then (if Name b \<noteq> [] then u\<lparr>Name := Name b\<rparr> else u)\<lparr>Birthday := Birthday b\<rparr>
    else (if Name b \<noteq> [] then u\<lparr>Name := Name b\<rparr> else u)) = overlay u b"
  by (cases u) (simp add: overlay_def)

lemma dbFirst_found:
  "find (\<lambda>r. int (ID r) = i) rows = Some u \<Longrightarrow> \<not> fault e OpFirst \<Longrightarrow> dbFirst e rows i = Inr u"
  by (simp add: dbFirst_def)

section \<open>What Atoi accepts\<close>

lemma foldl_digits_ge: "n \<le> foldl (\<lambda>n c. n * 10 + digit_val c) n ds"
proof (induction ds arbitrary: n)
  case Nil
  show ?case by simp
next
  case (Cons c cs)
  have "n \<le> n * 10 + digit_val c" by simp
  also have "\<dots> \<le> foldl (\<lambda>n c. n * 10 + digit_val c) (n * 10 + digit_val c) cs"
    by (rule Cons.IH)
  finally show ?case by simp
qed

lemma ParseUint_loop_Inr:
  "ParseUint_loop ds n = Inr m \<longleftrightarrow>
     list_all is_digit ds \<and> m = foldl (\<lambda>n c. n * 10 + digit_val c) n ds \<and>
     (ds = [] \<or> m \<le> maxUint64)"
proof (induction ds arbitrary: n)
  case Nil
  show ?case by auto
next
  case (Cons c cs)
  show ?case
  proof (cases "is_digit c")
    case False
    then show ?thesis by simp
  next
    case True
    show ?thesis
    proof (cases "maxUint64 < n * 10 + digit_val c")
      case over: True
      have "n * 10 + digit_val c \<le> foldl (\<lambda>n c. n * 10 + digit_val c) (n * 10 + digit_val c) cs"
        by (rule foldl_digits_ge)
      then show ?thesis using True over by auto
    next
      case fits: False
      have "foldl (\<lambda>n c. n * 10 + digit_val c) (n * 10 + digit_val c) [] \<le> maxUint64"
        using fits by simp
      then show ?thesis using True fits Cons.IH [of "n * 10 + digit_val c"] by auto
    qed
  qed
qed

lemma ParseUint_Inr:
  "ParseUint ds = Inr m \<longleftrightarrow>
     ds \<noteq> [] \<and> list_all is_digit ds \<and> m = digits_value ds \<and> m \<le> maxUint64"
  by (auto simp: ParseUint_def ParseUint_loop_Inr digits_value_def)

lemma ParseUint_cases:
  "ParseUint ds = Inr (digits_value ds) \<and> ds \<noteq> [] \<and> list_all is_digit ds \<and>
     digits_value ds \<le> maxUint64 \<or>
   (\<exists>err. ParseUint ds = Inl err) \<and>
     \<not> (ds \<noteq> [] \<and> list_all is_digit ds \<and> digits_value ds \<le> maxUint64)"
proof (cases "ParseUint ds")
  case (Inl err)
  then show ?thesis using ParseUint_Inr [of ds "digits_value ds"] by auto
next
  case (Inr m)
  then show ?thesis using ParseUint_Inr [of ds m] by auto
qed

lemma ParseInt_sign:
  "ParseInt (c # cs) =
     (case ParseUint (if c = CHR ''+'' \<or> c = CHR ''-'' then cs else c # cs) of
        Inl e \<Rightarrow> Inl e
      | Inr un \<Rightarrow>
          if c \<noteq> CHR ''-'' \<and> 2 ^ 63 \<le> un then Inl ErrRange
          else if c = CHR ''-'' \<and> 2 ^ 63 < un then Inl ErrRange
          else Inr (if c = CHR ''-'' then - int un else int un))"
  by (simp add: ParseInt_def Let_def)

lemma Atoi_Inr_iff:
  "Atoi s = Inr i \<longleftrightarrow>
     signed_decimal s \<and> i = decimal_value s \<and> - (2 ^ 63) \<le> i \<and> i < 2 ^ 63"
proof (cases s)
  case Nil
  then show ?thesis by (simp add: Atoi_def ParseInt_def signed_decimal_def)
next
  case (Cons c cs)
  let ?ds = "if c = CHR ''+'' \<or> c = CHR ''-'' then cs else c # cs"
  have sd: "signed_decimal s \<longleftrightarrow> ?ds \<noteq> [] \<and> list_all is_digit ?ds"
    using Cons by (simp add: signed_decimal_def)
  have dv: "decimal_value s = (if c = CHR ''-'' then - int (digits_value ?ds) else int (digits_value ?ds))"
    using Cons by (simp add: decimal_value_def)
  have big: "(2::nat) ^ 63 \<le> maxUint64" by (simp add: maxUint64_def)
  from ParseUint_cases [of ?ds] show ?thesis
  proof (elim disjE conjE exE)
    assume ok: "ParseUint ?ds = Inr (digits_value ?ds)" "?ds \<noteq> []" "list_all is_digit ?ds"
      "digits_value ?ds \<le> maxUint64"
    have "Atoi s =
       (if c \<noteq> CHR ''-'' \<and> 2 ^ 63 \<le> digits_value ?ds then Inl ErrRange
        else if c = CHR ''-'' \<and> 2 ^ 63 < digits_value ?ds then Inl ErrRange
        else Inr (if c = CHR ''-'' then - int (digits_value ?ds) else int (digits_value ?ds)))"
      unfolding Atoi_def Cons ParseInt_sign ok(1) by simp
    moreover have "signed_decimal s" using sd ok by simp
    ultimately show ?thesis using dv by (auto simp: not_le not_less)
  next
    fix err
    assume bad: "ParseUint ?ds = Inl err"
      "\<not> (?ds \<noteq> [] \<and> list_all is_digit ?ds \<and> digits_value ?ds \<le> maxUint64)"
    have a: "Atoi s = Inl err"
      unfolding Atoi_def Cons ParseInt_sign bad(1) by simp
    have "\<not> (signed_decimal s \<and> - (2 ^ 63) \<le> decimal_value s \<and> decimal_value s < 2 ^ 63)"
    proof
      assume h: "signed_decimal s \<and> - (2 ^ 63) \<le> decimal_value s \<and> decimal_value s < 2 ^ 63"
      then have "digits_value ?ds \<le> 2 ^ 63" using dv by (auto split: if_splits)
      then have "digits_value ?ds \<le> maxUint64" using big by linarith
      then show False using h sd bad(2) by simp
    qed
    then show ?thesis using a by auto
  qed
qed

lemma Atoi_fails_iff:
  "(\<exists>err. Atoi s = Inl err) \<longleftrightarrow>
   \<not> (signed_decimal s \<and> - (2 ^ 63) \<le> decimal_value s \<and> decimal_value s < 2 ^ 63)"
proof (cases "Atoi s")
  case (Inl err)
  then show ?thesis using Atoi_Inr_iff [of s "decimal_value s"] by auto
next
  case (Inr i)
  then show ?thesis using Atoi_Inr_iff [of s i] by auto
qed

section \<open>List\<close>

text \<open>
  C3: whenever the store read succeeds, List answers 200 with the JSON array of all
  persisted Users, and the store is left as it was; with no Users the body is the empty
  array, not \<^verbatim>\<open>null\<close>.
\<close>

theorem getUsers_array:
  assumes "\<not> fault e OpFind"
  shows "getUsers e rows = (\<lparr>status = 200, body = JArray rows\<rparr>, rows) \<and>
         body (fst (getUsers e [])) = JArray [] \<and> body (fst (getUsers e [])) \<noteq> JNull"
  using assms by (simp add: getUsers_def dbFind_def json_slice_def status_defs)

theorem getUsers_array_witness:
  "\<not> fault calm OpFind \<and>
   getUsers calm [ada] = (\<lparr>status = 200, body = JArray [ada]\<rparr>, [ada]) \<and>
   body (fst (getUsers calm [])) = JArray [] \<and> body (fst (getUsers calm [])) \<noteq> JNull"
proof -
  have h: "\<not> fault calm OpFind" by (simp add: sample_defs)
  show ?thesis using h getUsers_array [OF h, of "[ada]"] by simp
qed

section \<open>Get\<close>

lemma getUser_bad_id:
  "Atoi param = Inl err \<Longrightarrow>
   getUser e rows param = (JSON StatusBadRequest (JMap [(''error'', ''Invalid user ID'')]), rows)"
  by (simp add: getUser_def)

lemma getUser_not_found:
  assumes "Atoi param = Inr i" and "find (\<lambda>r. int (ID r) = i) rows = None \<or> fault e OpFirst"
  shows "getUser e rows param =
           (JSON StatusNotFound (JMap [(''error'', ''User not found'')]), rows)"
proof -
  have "\<exists>err. dbFirst e rows i = Inl err"
    using assms(2) by (auto simp: dbFirst_def)
  then obtain err where "dbFirst e rows i = Inl err" ..
  then show ?thesis
    using assms(1) by (simp add: getUser_def)
qed

lemma getUser_found:
  assumes "Atoi param = Inr i" and "find (\<lambda>r. int (ID r) = i) rows = Some u"
    and "\<not> fault e OpFirst"
  shows "getUser e rows param = (JSON StatusOK (JUser u), rows)"
  using assms(1) dbFirst_found [OF assms(2,3)] by (simp add: getUser_def)

lemma getUser_status_400:
  "status (fst (getUser e rows param)) = 400 \<longleftrightarrow> (\<exists>err. Atoi param = Inl err)"
proof (cases "Atoi param")
  case (Inl err)
  then show ?thesis by (simp add: getUser_bad_id status_defs)
next
  case (Inr i)
  show ?thesis
  proof (cases "find (\<lambda>r. int (ID r) = i) rows = None \<or> fault e OpFirst")
    case True
    then show ?thesis using getUser_not_found [OF Inr True] Inr by (simp add: status_defs)
  next
    case False
    then obtain u where "find (\<lambda>r. int (ID r) = i) rows = Some u" and "\<not> fault e OpFirst"
      by auto
    then show ?thesis using getUser_found [OF Inr] Inr by (simp add: status_defs)
  qed
qed

text \<open>
  C4, as the code has it: Get answers 400 exactly when \<^verbatim>\<open>strconv.Atoi\<close> rejects the path
  parameter, that is when the parameter is not an optionally signed string of decimal
  digits denoting a 64-bit integer. A parameter that parses and matches no row is
  answered with 404, and so is every negative number.
\<close>

theorem getUser_status:
  "(status (fst (getUser e rows param)) = 400 \<longleftrightarrow>
      \<not> (signed_decimal param \<and> - (2 ^ 63) \<le> decimal_value param \<and> decimal_value param < 2 ^ 63)) \<and>
   (Atoi param = Inr i \<and> find (\<lambda>r. int (ID r) = i) rows = None \<longrightarrow>
      getUser e rows param =
        (\<lparr>status = 404, body = JMap [(''error'', ''User not found'')]\<rparr>, rows)) \<and>
   (Atoi param = Inr i \<and> i < 0 \<longrightarrow>
      getUser e rows param =
        (\<lparr>status = 404, body = JMap [(''error'', ''User not found'')]\<rparr>, rows))"
proof (intro conjI impI)
  show "status (fst (getUser e rows param)) = 400 \<longleftrightarrow>
      \<not> (signed_decimal param \<and> - (2 ^ 63) \<le> decimal_value param \<and> decimal_value param < 2 ^ 63)"
    by (simp only: getUser_status_400 Atoi_fails_iff)
next
  assume "Atoi param = Inr i \<and> find (\<lambda>r. int (ID r) = i) rows = None"
  then show "getUser e rows param =
        (\<lparr>status = 404, body = JMap [(''error'', ''User not found'')]\<rparr>, rows)"
    using getUser_not_found [of param i rows e] by (simp add: status_defs)
next
  assume "Atoi param = Inr i \<and> i < 0"
  then show "getUser e rows param =
        (\<lparr>status = 404, body = JMap [(''error'', ''User not found'')]\<rparr>, rows)"
    using getUser_not_found [of param i rows e] find_negative [of i rows] by (simp add: status_defs)
qed

text \<open>
  C4 as stated fails: the negative number \<^verbatim>\<open>-5\<close> is no valid non-negative integer, yet
  \<^verbatim>\<open>Atoi\<close> parses it and Get answers 404, not 400.
\<close>

theorem getUser_negative_id_counterexample:
  "Atoi ''-5'' = Inr (- 5) \<and>
   getUser calm [ada] ''-5'' =
     (\<lparr>status = 404, body = JMap [(''error'', ''User not found'')]\<rparr>, [ada]) \<and>
   status (fst (getUser calm [ada] ''-5'')) \<noteq> 400"
proof -
  have "find (\<lambda>r. int (ID r) = - 5) [ada] = None \<or> fault calm OpFirst"
    by (simp add: ada_def)
  from getUser_not_found [OF atoi_minus_5 this] show ?thesis
    by (simp add: atoi_minus_5 status_defs)
qed

theorem getUser_status_witness:
  "Atoi ''3'' = Inr 3 \<and> find (\<lambda>r. int (ID r) = 3) [ada] = None \<and>
   getUser calm [ada] ''3'' =
     (\<lparr>status = 404, body = JMap [(''error'', ''User not found'')]\<rparr>, [ada]) \<and>
   Atoi ''-5'' = Inr (- 5) \<and> (- 5 :: int) < 0 \<and>
   getUser calm [ada] ''-5'' =
     (\<lparr>status = 404, body = JMap [(''error'', ''User not found'')]\<rparr>, [ada])"
proof -
  have n: "ID ada = 1" by (simp add: ada_def)
  show ?thesis
    using getUser_status [of calm "[ada]" "''3''" 3] getUser_status [of calm "[ada]" "''-5''" "- 5"]
    by (simp add: atoi_3 atoi_minus_5 n)
qed

section \<open>Create\<close>

lemma createUser_valid:
  "Name u \<noteq> [] \<Longrightarrow> Birthday u \<noteq> [] \<Longrightarrow>
   createUser e rows (Some u) =
     (case dbCreate e rows u of
        Inl err \<Rightarrow>
          (JSON StatusInternalServerError (JMap [(''error'', ''Failed to create user'')]), rows)
      | Inr (user', rows') \<Rightarrow> (JSON StatusCreated (JUser user'), rows'))"
  by (simp add: createUser_def)

text \<open>
  C6: a Create whose body cannot be bound, or whose bound name or birthday is empty, is
  answered with 400 and the rows are left as they were, so a following List returns
  what it would have returned before.
\<close>

theorem createUser_rejects_invalid:
  "createUser e rows None =
     (\<lparr>status = 400, body = JMap [(''error'', ''Invalid request'')]\<rparr>, rows) \<and>
   (Name u = [] \<or> Birthday u = [] \<longrightarrow>
      createUser e rows (Some u) =
        (\<lparr>status = 400, body = JMap [(''error'', ''Name and Birthday are required'')]\<rparr>, rows) \<and>
      getUsers e' (snd (createUser e rows (Some u))) = getUsers e' rows)"
  by (simp add: createUser_def status_defs)

theorem createUser_rejects_invalid_witness:
  "(Name (ada\<lparr>Name := []\<rparr>) = [] \<or> Birthday (ada\<lparr>Name := []\<rparr>) = []) \<and>
   createUser calm [ada] (Some (ada\<lparr>Name := []\<rparr>)) =
     (\<lparr>status = 400, body = JMap [(''error'', ''Name and Birthday are required'')]\<rparr>, [ada]) \<and>
   getUsers calm (snd (createUser calm [ada] (Some (ada\<lparr>Name := []\<rparr>)))) = getUsers calm [ada]"
  using createUser_rejects_invalid [of calm "[ada]" "ada\<lparr>Name := []\<rparr>" calm] by simp




section \<open>Update\<close>

lemma dbSave_overlay:
  assumes "find (\<lambda>r. int (ID r) = i) rows = Some u"
  shows "dbSave e rows (overlay u b) =
     (if fault e OpSave then Inl ErrFault
      else Inr (overlay u b, map (\<lambda>r. if ID r = ID u then overlay u b else r) rows))"
proof -
  have "u \<in> set rows" using find_id_mem [OF assms] by simp
  then have "ID u \<in> ID ` set rows" by blast
  moreover have "ID (overlay u b) = ID u" by (simp add: overlay_def)
  ultimately show ?thesis by (simp add: dbSave_def)
qed

lemma updateUser_merge:
  assumes "Atoi param = Inr i" and "dbFirst e rows i = Inr u"
  shows "updateUser e rows param (Some b) =
     (case dbSave e rows (overlay u b) of
        Inl err \<Rightarrow>
          (JSON StatusInternalServerError (JMap [(''error'', ''Failed to update user'')]), rows)
      | Inr (user', rows') \<Rightarrow> (JSON StatusOK (JUser user'), rows'))"
proof -
  have "updateUser e rows param (Some b) =
     (case dbSave e rows
        (if Birthday b \<noteq> []
         then (if Name b \<noteq> [] then u\<lparr>Name := Name b\<rparr> else u)\<lparr>Birthday := Birthday b\<rparr>
         else (if Name b \<noteq> [] then u\<lparr>Name := Name b\<rparr> else u)) of
        Inl err \<Rightarrow>
          (JSON StatusInternalServerError (JMap [(''error'', ''Failed to update user'')]), rows)
      | Inr (user', rows') \<Rightarrow> (JSON StatusOK (JUser user'), rows'))"
    by (simp only: updateUser_def assms Let_def sum.case option.case)
  then show ?thesis by (simp only: merge_overlay)
qed

lemma updateUser_found:
  assumes "Atoi param = Inr i" and "find (\<lambda>r. int (ID r) = i) rows = Some u"
    and "\<not> fault e OpFirst"
  shows "updateUser e rows param (Some b) =
     (if fault e OpSave
      then (JSON StatusInternalServerError (JMap [(''error'', ''Failed to update user'')]), rows)
      else (JSON StatusOK (JUser (overlay u b)),
            map (\<lambda>r. if ID r = ID u then overlay u b else r) rows))"
  by (simp add: updateUser_merge [OF assms(1) dbFirst_found [OF assms(2,3)]] dbSave_overlay [OF assms(2)])

lemma updateUser_not_found:
  assumes "Atoi param = Inr i" and "find (\<lambda>r. int (ID r) = i) rows = None \<or> fault e OpFirst"
  shows "updateUser e rows param bind =
           (JSON StatusNotFound (JMap [(''error'', ''User not found'')]), rows)"
proof -
  have "\<exists>err. dbFirst e rows i = Inl err"
    using assms(2) by (auto simp: dbFirst_def)
  then obtain err where "dbFirst e rows i = Inl err" ..
  then show ?thesis
    using assms(1) by (simp add: updateUser_def)
qed

lemma updateUser_bad_id:
  "Atoi param = Inl err \<Longrightarrow>
   updateUser e rows param bind =
     (JSON StatusBadRequest (JMap [(''error'', ''Invalid user ID'')]), rows)"
  by (simp add: updateUser_def)

lemma updateUser_bad_body:
  assumes "Atoi param = Inr i" and "find (\<lambda>r. int (ID r) = i) rows = Some u"
    and "\<not> fault e OpFirst"
  shows "updateUser e rows param None =
     (JSON StatusBadRequest (JMap [(''error'', ''Invalid request'')]), rows)"
  using assms(1) dbFirst_found [OF assms(2,3)] by (simp add: updateUser_def)

text \<open>Every run of updateUser either leaves the rows alone or is the successful overlay.\<close>

lemma updateUser_cases:
  obtains (unchanged) "snd (updateUser e rows param bind) = rows"
      and "status (fst (updateUser e rows param bind)) \<noteq> 200"
  | (saved) i u b where "Atoi param = Inr i" and "bind = Some b"
      and "find (\<lambda>r. int (ID r) = i) rows = Some u"
      and "\<not> fault e OpFirst" and "\<not> fault e OpSave"
      and "updateUser e rows param bind =
             (JSON StatusOK (JUser (overlay u b)),
              map (\<lambda>r. if ID r = ID u then overlay u b else r) rows)"
proof (cases "Atoi param")
  case (Inl err)
  then show ?thesis using unchanged by (simp add: updateUser_bad_id status_defs)
next
  case (Inr i)
  show ?thesis
  proof (cases "find (\<lambda>r. int (ID r) = i) rows = None \<or> fault e OpFirst")
    case True
    then show ?thesis
      using unchanged updateUser_not_found [OF Inr True] by (simp add: status_defs)
  next
    case False
    then obtain u where u: "find (\<lambda>r. int (ID r) = i) rows = Some u" and f: "\<not> fault e OpFirst"
      by auto
    show ?thesis
    proof (cases bind)
      case None
      then show ?thesis
        using unchanged updateUser_bad_body [OF Inr u f] by (simp add: status_defs)
    next
      case (Some b)
      show ?thesis
      proof (cases "fault e OpSave")
        case True
        then show ?thesis
          using unchanged updateUser_found [OF Inr u f, of b] Some by (simp add: status_defs)
      next
        case False
        then show ?thesis
          using saved [OF Inr Some u f False] updateUser_found [OF Inr u f, of b] Some by simp
      qed
    qed
  qed
qed

lemma replace_twice:
  "ID m = k \<Longrightarrow>
   map (\<lambda>r. if ID r = k then m else r) (map (\<lambda>r. if ID r = k then m else r) rows) =
   map (\<lambda>r. if ID r = k then m else r) rows"
  by (induction rows) auto

lemma overlay_twice: "overlay (overlay u b) b = overlay u b"
  by (simp add: overlay_def)

lemma overlay_ID: "ID (overlay u b) = ID u"
  by (simp add: overlay_def)

lemma updateUser_again:
  assumes "Atoi param = Inr i" and "find (\<lambda>r. int (ID r) = i) rows = Some u"
  shows "snd (updateUser e' (map (\<lambda>r. if ID r = ID u then overlay u b else r) rows) param (Some b)) =
         map (\<lambda>r. if ID r = ID u then overlay u b else r) rows"
    (is "snd (updateUser e' ?rows' param (Some b)) = ?rows'")
proof -
  have found: "find (\<lambda>r. int (ID r) = i) ?rows' = Some (overlay u b)"
    using find_id_replace [OF assms(2) overlay_ID] .
  show ?thesis
  proof (cases "fault e' OpFirst")
    case True
    then show ?thesis using updateUser_not_found [OF assms(1), of ?rows' e'] by simp
  next
    case False
    show ?thesis
      using updateUser_found [OF assms(1) found False, of b]
      by (simp add: overlay_twice overlay_ID replace_twice)
  qed
qed

text \<open>
  C8: a partial Update is idempotent. Sent twice in succession under the same
  environment, the request leaves the rows the first one left; and once the first one
  has answered 200, sending it again leaves those rows unchanged whatever the
  environment of the second one is.
\<close>

theorem updateUser_idempotent:
  "snd (updateUser e (snd (updateUser e rows param bind)) param bind) =
     snd (updateUser e rows param bind) \<and>
   (status (fst (updateUser e rows param bind)) = 200 \<longrightarrow>
      snd (updateUser e' (snd (updateUser e rows param bind)) param bind) =
        snd (updateUser e rows param bind))"
proof (cases e rows param bind rule: updateUser_cases)
  case unchanged
  then show ?thesis by simp
next
  case (saved i u b)
  then show ?thesis using updateUser_again [OF saved(1,3)] by simp
qed

text \<open>
  C1: for an Update whose path parameter parses to \<open>i\<close> and whose body binds to \<open>b\<close>:
  when no row has the identifier \<open>i\<close> the answer is 404 and the rows are unchanged;
  when the row \<open>u\<close> has it (and neither the load nor the save fails in the database),
  the loaded row is overlaid with exactly the non-empty ones of \<open>Name b\<close> and
  \<open>Birthday b\<close>, the merged record replaces the row, and the answer is 200 with the
  merged record, which is what the store then holds under \<open>i\<close>.
\<close>

theorem updateUser_overlay:
  assumes "Atoi param = Inr i"
  shows "(find (\<lambda>r. int (ID r) = i) rows = None \<longrightarrow>
            updateUser e rows param (Some b) =
              (\<lparr>status = 404, body = JMap [(''error'', ''User not found'')]\<rparr>, rows)) \<and>
         (find (\<lambda>r. int (ID r) = i) rows = Some u \<and> \<not> fault e OpFirst \<and> \<not> fault e OpSave \<longrightarrow>
            updateUser e rows param (Some b) =
              (\<lparr>status = 200, body = JUser (overlay u b)\<rparr>,
               map (\<lambda>r. if ID r = ID u then overlay u b else r) rows) \<and>
            find (\<lambda>r. int (ID r) = i) (snd (updateUser e rows param (Some b))) =
              Some (overlay u b))"
proof (intro conjI impI)
  assume "find (\<lambda>r. int (ID r) = i) rows = None"
  then show "updateUser e rows param (Some b) =
      (\<lparr>status = 404, body = JMap [(''error'', ''User not found'')]\<rparr>, rows)"
    using updateUser_not_found [OF assms, of rows e] by (simp add: status_defs)
next
  assume h: "find (\<lambda>r. int (ID r) = i) rows = Some u \<and> \<not> fault e OpFirst \<and> \<not> fault e OpSave"
  then have u: "find (\<lambda>r. int (ID r) = i) rows = Some u" and f: "\<not> fault e OpFirst"
    and g: "\<not> fault e OpSave" by simp_all
  show eq: "updateUser e rows param (Some b) =
      (\<lparr>status = 200, body = JUser (overlay u b)\<rparr>,
       map (\<lambda>r. if ID r = ID u then overlay u b else r) rows)"
    using updateUser_found [OF assms u f, of b] g by (simp add: status_defs)
  show "find (\<lambda>r. int (ID r) = i) (snd (updateUser e rows param (Some b))) = Some (overlay u b)"
    using find_id_replace [OF u overlay_ID] by (simp add: eq)
qed

theorem updateUser_overlay_witness:
  "Atoi ''1'' = Inr 1 \<and>
   find (\<lambda>r. int (ID r) = 1) [] = None \<and>
   updateUser calm [] ''1'' (Some \<lparr>ID = 7, Name = [], Birthday = ''1816-01-01''\<rparr>) =
     (\<lparr>status = 404, body = JMap [(''error'', ''User not found'')]\<rparr>, []) \<and>
   find (\<lambda>r. int (ID r) = 1) [ada] = Some ada \<and> \<not> fault calm OpFirst \<and> \<not> fault calm OpSave \<and>
   updateUser calm [ada] ''1'' (Some \<lparr>ID = 7, Name = [], Birthday = ''1816-01-01''\<rparr>) =
     (\<lparr>status = 200, body = JUser \<lparr>ID = 1, Name = ''Ada'', Birthday = ''1816-01-01''\<rparr>\<rparr>,
      [\<lparr>ID = 1, Name = ''Ada'', Birthday = ''1816-01-01''\<rparr>])"
  using updateUser_overlay [OF atoi_1, of "[]" calm "\<lparr>ID = 7, Name = [], Birthday = ''1816-01-01''\<rparr>" ada]
    updateUser_overlay [OF atoi_1, of "[ada]" calm "\<lparr>ID = 7, Name = [], Birthday = ''1816-01-01''\<rparr>" ada]
  by (simp add: atoi_1 sample_defs overlay_def)

theorem updateUser_idempotent_witness:
  "status (fst (updateUser calm [ada] ''1'' (Some \<lparr>ID = 0, Name = ''Lovelace'', Birthday = []\<rparr>))) = 200 \<and>
   snd (updateUser (broken OpCreate)
          (snd (updateUser calm [ada] ''1'' (Some \<lparr>ID = 0, Name = ''Lovelace'', Birthday = []\<rparr>)))
          ''1'' (Some \<lparr>ID = 0, Name = ''Lovelace'', Birthday = []\<rparr>)) =
     [\<lparr>ID = 1, Name = ''Lovelace'', Birthday = ''1815-12-10''\<rparr>]"
proof -
  have a: "updateUser calm [ada] ''1'' (Some \<lparr>ID = 0, Name = ''Lovelace'', Birthday = []\<rparr>) =
     (\<lparr>status = 200, body = JUser \<lparr>ID = 1, Name = ''Lovelace'', Birthday = ''1815-12-10''\<rparr>\<rparr>,
      [\<lparr>ID = 1, Name = ''Lovelace'', Birthday = ''1815-12-10''\<rparr>])"
    using updateUser_found [OF atoi_1, of "[ada]" ada calm "\<lparr>ID = 0, Name = ''Lovelace'', Birthday = []\<rparr>"]
    by (simp add: sample_defs overlay_def status_defs)
  show ?thesis
    using updateUser_idempotent [of calm "[ada]" "''1''"
        "Some \<lparr>ID = 0, Name = ''Lovelace'', Birthday = []\<rparr>" "broken OpCreate"]
    by (simp add: a)
qed

lemma replace_ids:
  "ID m = k \<Longrightarrow> map ID (map (\<lambda>r. if ID r = k then m else r) rows) = map ID rows"
  by (induction rows) auto

lemma updateUser_ignores_ID:
  "updateUser e rows param (Some (b\<lparr>ID := k\<rparr>)) = updateUser e rows param (Some b)"
proof (cases "Atoi param")
  case (Inl err)
  then show ?thesis by (simp add: updateUser_bad_id)
next
  case (Inr i)
  show ?thesis
  proof (cases "dbFirst e rows i")
    case (Inl err)
    then show ?thesis using Inr by (simp add: updateUser_def)
  next
    case found: (Inr u)
    have "overlay u (b\<lparr>ID := k\<rparr>) = overlay u b" by (simp add: overlay_def)
    then show ?thesis by (simp add: updateUser_merge [OF Inr found])
  qed
qed

text \<open>
  C10: an Update that answers 200 leaves the identifiers of all rows, row by row, as
  they were (so the updated row keeps its identifier and no row is added or removed),
  and leaves every row with another identifier than the one requested unchanged; an
  Update that answers 400 or 404 leaves all rows unchanged; and an \<open>ID\<close> field in the
  body has no effect at all.
\<close>

theorem updateUser_frame:
  "(status (fst (updateUser e rows param bind)) = 200 \<longrightarrow>
      map ID (snd (updateUser e rows param bind)) = map ID rows \<and>
      (\<exists>i. Atoi param = Inr i \<and>
         (\<forall>n < length rows. int (ID (rows ! n)) \<noteq> i \<longrightarrow>
            snd (updateUser e rows param bind) ! n = rows ! n))) \<and>
   (status (fst (updateUser e rows param bind)) = 400 \<or>
    status (fst (updateUser e rows param bind)) = 404 \<longrightarrow>
      snd (updateUser e rows param bind) = rows) \<and>
   updateUser e rows param (Some (b\<lparr>ID := k\<rparr>)) = updateUser e rows param (Some b)"
proof (cases e rows param bind rule: updateUser_cases)
  case unchanged
  then show ?thesis by (simp add: updateUser_ignores_ID)
next
  case (saved i u b')
  have "int (ID u) = i" using find_id_mem [OF saved(3)] by simp
  then have "\<forall>n < length rows. int (ID (rows ! n)) \<noteq> i \<longrightarrow>
      map (\<lambda>r. if ID r = ID u then overlay u b' else r) rows ! n = rows ! n"
    by auto
  then show ?thesis
    using saved(1) by (simp add: saved(6) status_defs replace_ids overlay_ID updateUser_ignores_ID)
qed

theorem updateUser_frame_witness:
  "status (fst (updateUser calm [ada, grace] ''1'' (Some \<lparr>ID = 9, Name = ''Lovelace'', Birthday = []\<rparr>))) = 200 \<and>
   map ID (snd (updateUser calm [ada, grace] ''1'' (Some \<lparr>ID = 9, Name = ''Lovelace'', Birthday = []\<rparr>))) = [1, 2] \<and>
   (1::nat) < length [ada, grace] \<and> int (ID ([ada, grace] ! 1)) \<noteq> 1 \<and>
   snd (updateUser calm [ada, grace] ''1'' (Some \<lparr>ID = 9, Name = ''Lovelace'', Birthday = []\<rparr>)) ! 1 = grace \<and>
   status (fst (updateUser calm [ada, grace] ''3'' (Some \<lparr>ID = 9, Name = ''Lovelace'', Birthday = []\<rparr>))) = 404 \<and>
   snd (updateUser calm [ada, grace] ''3'' (Some \<lparr>ID = 9, Name = ''Lovelace'', Birthday = []\<rparr>)) = [ada, grace]"
proof -
  have f: "find (\<lambda>r. int (ID r) = 1) [ada, grace] = Some ada" by (simp add: ada_def)
  have c: "\<not> fault calm OpFirst" "\<not> fault calm OpSave" by (simp_all add: sample_defs)
  have a: "updateUser calm [ada, grace] ''1'' (Some \<lparr>ID = 9, Name = ''Lovelace'', Birthday = []\<rparr>) =
      (\<lparr>status = 200, body = JUser \<lparr>ID = 1, Name = ''Lovelace'', Birthday = ''1815-12-10''\<rparr>\<rparr>,
       [\<lparr>ID = 1, Name = ''Lovelace'', Birthday = ''1815-12-10''\<rparr>, grace])"
    using updateUser_found [OF atoi_1 f c(1), of "\<lparr>ID = 9, Name = ''Lovelace'', Birthday = []\<rparr>"] c(2)
    by (simp add: overlay_def status_defs ada_def grace_def)
  have ids: "ID ada = 1" "ID grace = 2" by (simp_all add: ada_def grace_def)
  have n: "find (\<lambda>r. int (ID r) = 3) [ada, grace] = None \<or> fault calm OpFirst"
    by (simp add: ada_def grace_def)
  have b: "updateUser calm [ada, grace] ''3'' (Some \<lparr>ID = 9, Name = ''Lovelace'', Birthday = []\<rparr>) =
      (\<lparr>status = 404, body = JMap [(''error'', ''User not found'')]\<rparr>, [ada, grace])"
    using updateUser_not_found [OF atoi_3 n] by (simp add: status_defs)
  show ?thesis
    using updateUser_frame [of calm "[ada, grace]" "''1''"
        "Some \<lparr>ID = 9, Name = ''Lovelace'', Birthday = []\<rparr>"]
      updateUser_frame [of calm "[ada, grace]" "''3''"
        "Some \<lparr>ID = 9, Name = ''Lovelace'', Birthday = []\<rparr>"]
    by (simp add: a b ids)
qed

section \<open>Delete\<close>

lemma deleteUser_found:
  assumes "Atoi param = Inr i" and "find (\<lambda>r. int (ID r) = i) rows = Some u"
    and "\<not> fault e OpFirst"
  shows "deleteUser e rows param =
     (if fault e OpDelete
      then (JSON StatusInternalServerError (JMap [(''error'', ''Failed to delete user'')]), rows)
      else (JSON StatusOK (JMap [(''message'', ''User deleted successfully'')]),
            filter (\<lambda>r. ID r \<noteq> ID u) rows))"
  using assms(1) dbFirst_found [OF assms(2,3)] by (simp add: deleteUser_def dbDelete_def)

lemma deleteUser_not_found:
  assumes "Atoi param = Inr i" and "find (\<lambda>r. int (ID r) = i) rows = None \<or> fault e OpFirst"
  shows "deleteUser e rows param =
           (JSON StatusNotFound (JMap [(''error'', ''User not found'')]), rows)"
proof -
  have "\<exists>err. dbFirst e rows i = Inl err"
    using assms(2) by (auto simp: dbFirst_def)
  then obtain err where "dbFirst e rows i = Inl err" ..
  then show ?thesis
    using assms(1) by (simp add: deleteUser_def)
qed

text \<open>
  C9: Delete on the identifier of an existing row (the database failing neither the
  load nor the removal) answers 200 with the confirmation message and removes the row:
  the rows left are those with another identifier. After it, under any environment, a
  Get on the same parameter answers 404, and so does a second Delete, which changes
  nothing.
\<close>

theorem deleteUser_removes:
  assumes "Atoi param = Inr i" and "find (\<lambda>r. int (ID r) = i) rows = Some u"
    and "\<not> fault e OpFirst" and "\<not> fault e OpDelete"
  shows "deleteUser e rows param =
           (\<lparr>status = 200, body = JMap [(''message'', ''User deleted successfully'')]\<rparr>,
            filter (\<lambda>r. int (ID r) \<noteq> i) rows) \<and>
         getUser e' (snd (deleteUser e rows param)) param =
           (\<lparr>status = 404, body = JMap [(''error'', ''User not found'')]\<rparr>,
            snd (deleteUser e rows param)) \<and>
         deleteUser e'' (snd (deleteUser e rows param)) param =
           (\<lparr>status = 404, body = JMap [(''error'', ''User not found'')]\<rparr>,
            snd (deleteUser e rows param))"
proof -
  have i: "int (ID u) = i" using find_id_mem [OF assms(2)] by simp
  then have same: "(\<lambda>r. ID r \<noteq> ID u) = (\<lambda>r. int (ID r) \<noteq> i)" by auto
  have eq: "deleteUser e rows param =
      (JSON StatusOK (JMap [(''message'', ''User deleted successfully'')]),
       filter (\<lambda>r. ID r \<noteq> ID u) rows)"
    using deleteUser_found [OF assms(1,2,3)] assms(4) by simp
  have gone: "find (\<lambda>r. int (ID r) = i) (filter (\<lambda>r. ID r \<noteq> ID u) rows) = None \<or> fault x OpFirst"
    for x by (rule disjI1) (rule find_id_removed [OF i])
  show ?thesis
    using getUser_not_found [OF assms(1) gone] deleteUser_not_found [OF assms(1) gone]
    by (simp add: eq status_defs same)
qed

theorem deleteUser_removes_witness:
  "Atoi ''1'' = Inr 1 \<and> find (\<lambda>r. int (ID r) = 1) [ada, grace] = Some ada \<and>
   \<not> fault calm OpFirst \<and> \<not> fault calm OpDelete \<and>
   deleteUser calm [ada, grace] ''1'' =
     (\<lparr>status = 200, body = JMap [(''message'', ''User deleted successfully'')]\<rparr>, [grace]) \<and>
   getUser calm [grace] ''1'' =
     (\<lparr>status = 404, body = JMap [(''error'', ''User not found'')]\<rparr>, [grace]) \<and>
   deleteUser calm [grace] ''1'' =
     (\<lparr>status = 404, body = JMap [(''error'', ''User not found'')]\<rparr>, [grace])"
proof -
  have f: "find (\<lambda>r. int (ID r) = 1) [ada, grace] = Some ada" by (simp add: ada_def)
  have c: "\<not> fault calm OpFirst" "\<not> fault calm OpDelete" by (simp_all add: sample_defs)
  have ids: "ID ada = 1" "ID grace = 2" by (simp_all add: ada_def grace_def)
  show ?thesis
    using deleteUser_removes [OF atoi_1 f c, of calm calm]
    by (auto simp: atoi_1 f c ids)
qed

section \<open>Errors of the store\<close>

text \<open>
  C2, as the code has it: an error of \<^verbatim>\<open>Find\<close>, \<^verbatim>\<open>Create\<close>, \<^verbatim>\<open>Save\<close> or \<^verbatim>\<open>Delete\<close>, whatever
  its cause, is answered with 500 and leaves the rows unchanged. An error of \<^verbatim>\<open>First\<close>,
  whatever its cause (no such row, or a fault of the database), is answered with 404
  by Get, Update and Delete alike.
\<close>

theorem store_errors_surface:
  "(fault e OpFind \<longrightarrow>
      getUsers e rows =
        (\<lparr>status = 500, body = JMap [(''error'', ''Failed to fetch users'')]\<rparr>, rows)) \<and>
   (Name u \<noteq> [] \<and> Birthday u \<noteq> [] \<and> dbCreate e rows u = Inl err \<longrightarrow>
      createUser e rows (Some u) =
        (\<lparr>status = 500, body = JMap [(''error'', ''Failed to create user'')]\<rparr>, rows)) \<and>
   (Atoi param = Inr i \<and> dbFirst e rows i = Inr v \<and> fault e OpSave \<longrightarrow>
      updateUser e rows param (Some b) =
        (\<lparr>status = 500, body = JMap [(''error'', ''Failed to update user'')]\<rparr>, rows)) \<and>
   (Atoi param = Inr i \<and> dbFirst e rows i = Inr v \<and> fault e OpDelete \<longrightarrow>
      deleteUser e rows param =
        (\<lparr>status = 500, body = JMap [(''error'', ''Failed to delete user'')]\<rparr>, rows)) \<and>
   (Atoi param = Inr i \<and> dbFirst e rows i = Inl err' \<longrightarrow>
      getUser e rows param =
        (\<lparr>status = 404, body = JMap [(''error'', ''User not found'')]\<rparr>, rows) \<and>
      updateUser e rows param bind =
        (\<lparr>status = 404, body = JMap [(''error'', ''User not found'')]\<rparr>, rows) \<and>
      deleteUser e rows param =
        (\<lparr>status = 404, body = JMap [(''error'', ''User not found'')]\<rparr>, rows))"
proof (intro conjI impI)
  assume "fault e OpFind"
  then show "getUsers e rows =
        (\<lparr>status = 500, body = JMap [(''error'', ''Failed to fetch users'')]\<rparr>, rows)"
    by (simp add: getUsers_def dbFind_def status_defs)
next
  assume "Name u \<noteq> [] \<and> Birthday u \<noteq> [] \<and> dbCreate e rows u = Inl err"
  then show "createUser e rows (Some u) =
        (\<lparr>status = 500, body = JMap [(''error'', ''Failed to create user'')]\<rparr>, rows)"
    by (simp add: createUser_valid status_defs)
next
  assume h: "Atoi param = Inr i \<and> dbFirst e rows i = Inr v \<and> fault e OpSave"
  then have "dbSave e rows (overlay v b) = Inl ErrFault" by (simp add: dbSave_def)
  then show "updateUser e rows param (Some b) =
        (\<lparr>status = 500, body = JMap [(''error'', ''Failed to update user'')]\<rparr>, rows)"
    using h updateUser_merge [of param i e rows v b] by (simp add: status_defs)
next
  assume "Atoi param = Inr i \<and> dbFirst e rows i = Inr v \<and> fault e OpDelete"
  then show "deleteUser e rows param =
        (\<lparr>status = 500, body = JMap [(''error'', ''Failed to delete user'')]\<rparr>, rows)"
    by (simp add: deleteUser_def dbDelete_def status_defs)
next
  assume h: "Atoi param = Inr i \<and> dbFirst e rows i = Inl err'"
  then show "getUser e rows param =
        (\<lparr>status = 404, body = JMap [(''error'', ''User not found'')]\<rparr>, rows)"
    by (simp add: getUser_def status_defs)
  from h show "updateUser e rows param bind =
        (\<lparr>status = 404, body = JMap [(''error'', ''User not found'')]\<rparr>, rows)"
    by (simp add: updateUser_def status_defs)
  from h show "deleteUser e rows param =
        (\<lparr>status = 404, body = JMap [(''error'', ''User not found'')]\<rparr>, rows)"
    by (simp add: deleteUser_def status_defs)
qed

text \<open>
  C2 as stated fails: the row exists, the database fails on the read of Get, and the
  answer is 404, not 500.
\<close>

theorem getUser_storage_fault_counterexample:
  "dbFirst (broken OpFirst) [ada] 1 = Inl ErrFault \<and>
   getUser (broken OpFirst) [ada] ''1'' =
     (\<lparr>status = 404, body = JMap [(''error'', ''User not found'')]\<rparr>, [ada]) \<and>
   status (fst (getUser (broken OpFirst) [ada] ''1'')) \<noteq> 500"
  by (simp add: getUser_def dbFirst_def atoi_1 broken_fault status_defs)

theorem store_errors_surface_witness:
  "fault (broken OpFind) OpFind \<and>
   getUsers (broken OpFind) [ada] =
     (\<lparr>status = 500, body = JMap [(''error'', ''Failed to fetch users'')]\<rparr>, [ada]) \<and>
   Name (grace\<lparr>ID := 1\<rparr>) \<noteq> [] \<and> Birthday (grace\<lparr>ID := 1\<rparr>) \<noteq> [] \<and>
   dbCreate calm [ada] (grace\<lparr>ID := 1\<rparr>) = Inl ErrDuplicatedKey \<and>
   createUser calm [ada] (Some (grace\<lparr>ID := 1\<rparr>)) =
     (\<lparr>status = 500, body = JMap [(''error'', ''Failed to create user'')]\<rparr>, [ada]) \<and>
   Atoi ''1'' = Inr 1 \<and> dbFirst (broken OpSave) [ada] 1 = Inr ada \<and> fault (broken OpSave) OpSave \<and>
   updateUser (broken OpSave) [ada] ''1'' (Some grace) =
     (\<lparr>status = 500, body = JMap [(''error'', ''Failed to update user'')]\<rparr>, [ada]) \<and>
   dbFirst (broken OpDelete) [ada] 1 = Inr ada \<and> fault (broken OpDelete) OpDelete \<and>
   deleteUser (broken OpDelete) [ada] ''1'' =
     (\<lparr>status = 500, body = JMap [(''error'', ''Failed to delete user'')]\<rparr>, [ada]) \<and>
   dbFirst (broken OpFirst) [ada] 1 = Inl ErrFault \<and>
   getUser (broken OpFirst) [ada] ''1'' =
     (\<lparr>status = 404, body = JMap [(''error'', ''User not found'')]\<rparr>, [ada]) \<and>
   updateUser (broken OpFirst) [ada] ''1'' (Some grace) =
     (\<lparr>status = 404, body = JMap [(''error'', ''User not found'')]\<rparr>, [ada]) \<and>
   deleteUser (broken OpFirst) [ada] ''1'' =
     (\<lparr>status = 404, body = JMap [(''error'', ''User not found'')]\<rparr>, [ada])"
proof -
  have h1: "fault (broken OpFind) OpFind" by (simp add: broken_fault)
  have h2: "Name (grace\<lparr>ID := 1\<rparr>) \<noteq> [] \<and> Birthday (grace\<lparr>ID := 1\<rparr>) \<noteq> [] \<and>
      dbCreate calm [ada] (grace\<lparr>ID := 1\<rparr>) = Inl ErrDuplicatedKey"
    by (simp add: dbCreate_def Let_def calm_fault sample_ids sample_fields)
  have h3: "Atoi ''1'' = Inr 1 \<and> dbFirst (broken OpSave) [ada] 1 = Inr ada \<and>
      fault (broken OpSave) OpSave"
    by (simp add: atoi_1 dbFirst_def broken_fault sample_ids)
  have h4: "Atoi ''1'' = Inr 1 \<and> dbFirst (broken OpDelete) [ada] 1 = Inr ada \<and>
      fault (broken OpDelete) OpDelete"
    by (simp add: atoi_1 dbFirst_def broken_fault sample_ids)
  have h5: "Atoi ''1'' = Inr 1 \<and> dbFirst (broken OpFirst) [ada] 1 = Inl ErrFault"
    by (simp add: atoi_1 dbFirst_def broken_fault)
  note t = store_errors_surface
  have c1: "getUsers (broken OpFind) [ada] =
     (\<lparr>status = 500, body = JMap [(''error'', ''Failed to fetch users'')]\<rparr>, [ada])"
    using t [THEN conjunct1, of "broken OpFind" "[ada]"] h1 by simp
  have c2: "createUser calm [ada] (Some (grace\<lparr>ID := 1\<rparr>)) =
     (\<lparr>status = 500, body = JMap [(''error'', ''Failed to create user'')]\<rparr>, [ada])"
    using t [THEN conjunct2, THEN conjunct1, THEN mp, OF h2] .
  have c3: "updateUser (broken OpSave) [ada] ''1'' (Some grace) =
     (\<lparr>status = 500, body = JMap [(''error'', ''Failed to update user'')]\<rparr>, [ada])"
    using t [THEN conjunct2, THEN conjunct2, THEN conjunct1, THEN mp, OF h3] .
  have c4: "deleteUser (broken OpDelete) [ada] ''1'' =
     (\<lparr>status = 500, body = JMap [(''error'', ''Failed to delete user'')]\<rparr>, [ada])"
    using t [THEN conjunct2, THEN conjunct2, THEN conjunct2, THEN conjunct1, THEN mp, OF h4] .
  have c5: "getUser (broken OpFirst) [ada] ''1'' =
     (\<lparr>status = 404, body = JMap [(''error'', ''User not found'')]\<rparr>, [ada]) \<and>
   updateUser (broken OpFirst) [ada] ''1'' (Some grace) =
     (\<lparr>status = 404, body = JMap [(''error'', ''User not found'')]\<rparr>, [ada]) \<and>
   deleteUser (broken OpFirst) [ada] ''1'' =
     (\<lparr>status = 404, body = JMap [(''error'', ''User not found'')]\<rparr>, [ada])"
    using t [THEN conjunct2, THEN conjunct2, THEN conjunct2, THEN conjunct2, THEN mp, OF h5] .
  show ?thesis using h1 h2 h3 h4 h5 c1 c2 c3 c4 c5 by simp
qed

section \<open>Invariant\<close>

lemma insort_key_ids: "map ID (insort_key ID v rows) = insort (ID v) (map ID rows)"
  by (induction rows) simp_all

lemma insort_key_inv:
  assumes "store_inv rows" and "Name v \<noteq> []" and "Birthday v \<noteq> []"
    and "ID v \<notin> set (map ID rows)"
  shows "store_inv (insort_key ID v rows)"
proof -
  have "distinct (insort (ID v) (map ID rows))"
    using assms(1,4) by (simp add: store_inv_def distinct_insort)
  moreover have "list_all (\<lambda>u. Name u \<noteq> [] \<and> Birthday u \<noteq> []) (insort_key ID v rows)"
    using assms(1,2,3) by (simp add: store_inv_def list_all_iff set_insort_key)
  ultimately show ?thesis by (simp add: store_inv_def insort_key_ids)
qed

lemma dbCreate_inv:
  assumes "store_inv rows" and "Name u \<noteq> []" and "Birthday u \<noteq> []"
    and "dbCreate e rows u = Inr (u', rows')"
  shows "store_inv rows'"
proof -
  let ?v = "if ID u = 0 then u\<lparr>ID := fresh e\<rparr> else u"
  from assms(4) have new: "ID ?v \<notin> set (map ID rows)" and r: "rows' = insort_key ID ?v rows"
    by (auto simp: dbCreate_def Let_def split: if_splits)
  have "Name ?v \<noteq> []" "Birthday ?v \<noteq> []" using assms(2,3) by simp_all
  then show ?thesis
    unfolding r using assms(1) new by (intro insort_key_inv)
qed

lemma createUser_inv:
  assumes "store_inv rows"
  shows "store_inv (snd (createUser e rows bind))"
proof (cases bind)
  case None
  then show ?thesis using assms by (simp add: createUser_def)
next
  case (Some u)
  show ?thesis
  proof (cases "Name u = [] \<or> Birthday u = []")
    case True
    then show ?thesis using assms Some by (simp add: createUser_def)
  next
    case False
    show ?thesis
    proof (cases "dbCreate e rows u")
      case (Inl err)
      then show ?thesis using assms Some False by (simp add: createUser_def)
    next
      case (Inr p)
      obtain u' rows' where p: "p = (u', rows')" by (cases p)
      have "store_inv rows'" using dbCreate_inv [OF assms _ _ Inr [unfolded p]] False by simp
      then show ?thesis using Some False Inr p by (simp add: createUser_def)
    qed
  qed
qed

lemma updateUser_inv:
  assumes "store_inv rows"
  shows "store_inv (snd (updateUser e rows param bind))"
proof (cases e rows param bind rule: updateUser_cases)
  case unchanged
  then show ?thesis using assms by simp
next
  case (saved i u b)
  have "u \<in> set rows" using find_id_mem [OF saved(3)] by simp
  then have "Name u \<noteq> [] \<and> Birthday u \<noteq> []"
    using assms by (auto simp: store_inv_def list_all_iff)
  then have "Name (overlay u b) \<noteq> [] \<and> Birthday (overlay u b) \<noteq> []"
    by (simp add: overlay_def)
  then have "list_all (\<lambda>u. Name u \<noteq> [] \<and> Birthday u \<noteq> [])
               (map (\<lambda>r. if ID r = ID u then overlay u b else r) rows)"
    using assms by (auto simp: store_inv_def list_all_iff)
  moreover have "map ID (map (\<lambda>r. if ID r = ID u then overlay u b else r) rows) = map ID rows"
    by (rule replace_ids) (rule overlay_ID)
  ultimately have "store_inv (map (\<lambda>r. if ID r = ID u then overlay u b else r) rows)"
    using assms unfolding store_inv_def by (simp only: simp_thms)
  then show ?thesis by (simp add: saved(6))
qed

lemma deleteUser_rows:
  "snd (deleteUser e rows param) = rows \<or>
   (\<exists>u::User. snd (deleteUser e rows param) = filter (\<lambda>r. ID r \<noteq> ID u) rows)"
proof (cases "Atoi param")
  case (Inl err)
  then show ?thesis by (simp add: deleteUser_def)
next
  case (Inr i)
  show ?thesis
  proof (cases "dbFirst e rows i")
    case (Inl err)
    then show ?thesis using Inr by (simp add: deleteUser_def)
  next
    case found: (Inr u)
    show ?thesis
    proof (cases "fault e OpDelete")
      case True
      then show ?thesis using Inr found by (simp add: deleteUser_def dbDelete_def)
    next
      case False
      then have "snd (deleteUser e rows param) = filter (\<lambda>r. ID r \<noteq> ID u) rows"
        using Inr found by (simp add: deleteUser_def dbDelete_def)
      then show ?thesis by blast
    qed
  qed
qed

lemma filter_inv: "store_inv rows \<Longrightarrow> store_inv (filter P rows)"
  by (auto simp: store_inv_def list_all_iff distinct_map_filter)

lemma deleteUser_inv:
  assumes "store_inv rows"
  shows "store_inv (snd (deleteUser e rows param))"
proof -
  consider "snd (deleteUser e rows param) = rows"
    | u :: User where "snd (deleteUser e rows param) = filter (\<lambda>r. ID r \<noteq> ID u) rows"
    using deleteUser_rows [of e rows param] by blast
  then show ?thesis
  proof cases
    case 1
    then show ?thesis using assms by simp
  next
    case 2
    then show ?thesis using filter_inv [OF assms] by simp
  qed
qed

text \<open>
  C7: Create, Update and Delete preserve the invariant of the table: identifiers stay
  pairwise distinct, and no row has an empty name or birthday; in particular Update
  never empties a field.
\<close>

theorem handlers_preserve_inv:
  assumes "store_inv rows"
  shows "store_inv (snd (createUser e rows bind)) \<and>
         store_inv (snd (updateUser e rows param bind)) \<and>
         store_inv (snd (deleteUser e rows param))"
  using createUser_inv [OF assms] updateUser_inv [OF assms] deleteUser_inv [OF assms] by simp

theorem handlers_preserve_inv_witness:
  "store_inv [ada, grace] \<and>
   store_inv (snd (createUser calm [ada, grace] (Some (grace\<lparr>ID := 3\<rparr>)))) \<and>
   store_inv (snd (updateUser calm [ada, grace] ''1'' (Some (grace\<lparr>Name := []\<rparr>)))) \<and>
   store_inv (snd (deleteUser calm [ada, grace] ''1''))"
proof -
  have h: "store_inv [ada, grace]"
    by (simp add: store_inv_def sample_ids sample_fields)
  show ?thesis
    using h handlers_preserve_inv [OF h, of calm "Some (grace\<lparr>ID := 3\<rparr>)" "''1''"]
      handlers_preserve_inv [OF h, of calm "Some (grace\<lparr>Name := []\<rparr>)" "''1''"]
    by simp
qed

text \<open>Hence the invariant holds in every state the server reaches from the empty table.\<close>

lemma route_inv: "store_inv rows \<Longrightarrow> store_inv (snd (route e rows r))"
  by (cases r) (simp_all add: createUser_inv updateUser_inv deleteUser_inv getUsers_def getUser_def
      split: sum.splits)

lemma serve_inv: "store_inv rows \<Longrightarrow> store_inv (serve rows rs)"
  by (induction rows rs rule: serve.induct) (simp_all add: route_inv)

lemma reachable_inv: "store_inv (serve [] rs)"
  by (rule serve_inv) (simp add: store_inv_def)

section \<open>Order of the rows\<close>

text \<open>
  The rows stay in the order of the primary key, in every state the server reaches from
  the empty table.
\<close>

lemma dbCreate_sorted:
  assumes "sorted (map ID rows)" and "dbCreate e rows u = Inr (u', rows')"
  shows "sorted (map ID rows')"
proof -
  let ?v = "if ID u = 0 then u\<lparr>ID := fresh e\<rparr> else u"
  from assms(2) have "rows' = insort_key ID ?v rows"
    by (auto simp: dbCreate_def Let_def split: if_splits)
  then show ?thesis using assms(1) by (simp add: insort_key_ids sorted_insort)
qed

lemma createUser_sorted:
  assumes "sorted (map ID rows)"
  shows "sorted (map ID (snd (createUser e rows bind)))"
proof (cases bind)
  case None
  then show ?thesis using assms by (simp add: createUser_def)
next
  case (Some u)
  show ?thesis
  proof (cases "Name u = [] \<or> Birthday u = []")
    case True
    then show ?thesis using assms Some by (simp add: createUser_def)
  next
    case False
    show ?thesis
    proof (cases "dbCreate e rows u")
      case (Inl err)
      then show ?thesis using assms Some False by (simp add: createUser_def)
    next
      case (Inr p)
      obtain u' rows' where p: "p = (u', rows')" by (cases p)
      have "sorted (map ID rows')" using dbCreate_sorted [OF assms Inr [unfolded p]] .
      then show ?thesis using Some False Inr p by (simp add: createUser_def)
    qed
  qed
qed

lemma updateUser_ids:
  "map ID (snd (updateUser e rows param bind)) = map ID rows"
proof (cases e rows param bind rule: updateUser_cases)
  case unchanged
  then show ?thesis by simp
next
  case (saved i u b)
  have "map ID (map (\<lambda>r. if ID r = ID u then overlay u b else r) rows) = map ID rows"
    by (rule replace_ids) (rule overlay_ID)
  then show ?thesis by (simp add: saved(6))
qed

lemma deleteUser_sorted:
  assumes "sorted (map ID rows)"
  shows "sorted (map ID (snd (deleteUser e rows param)))"
proof -
  consider "snd (deleteUser e rows param) = rows"
    | u :: User where "snd (deleteUser e rows param) = filter (\<lambda>r. ID r \<noteq> ID u) rows"
    using deleteUser_rows [of e rows param] by blast
  then show ?thesis
  proof cases
    case 1
    then show ?thesis using assms by simp
  next
    case 2
    then show ?thesis using assms by (simp add: sorted_filter)
  qed
qed

lemma route_sorted: "sorted (map ID rows) \<Longrightarrow> sorted (map ID (snd (route e rows r)))"
  by (cases r) (simp_all add: createUser_sorted updateUser_ids deleteUser_sorted getUsers_def
      getUser_def split: sum.splits)

lemma serve_sorted: "sorted (map ID rows) \<Longrightarrow> sorted (map ID (serve rows rs))"
  by (induction rows rs rule: serve.induct) (simp_all add: route_sorted)

lemma reachable_sorted: "sorted (map ID (serve [] rs))"
  by (rule serve_sorted) simp

end
